theory Spec2Isabelle
  imports Main
begin

section \<open>myshell.c: a line-at-a-time shell of built-in file operations\<close>

text \<open>
  The program keeps two global character arrays, \<open>buffer\<close> (the line read by
  \<open>fgets\<close>) and \<open>filename\<close> (the argument token written by \<open>sscanf\<close>).
  A C string is modelled by the list of its characters in front of the terminating
  NUL. Everything the program obtains from the operating system (the file system, the
  working directory, the password record, the two output streams, \<open>errno\<close>) is a
  field of the record \<open>shell\<close>, passed through every function. Accesses of C that
  have no defined result (an index outside an array, a null pointer) are values of
  the type \<open>fault\<close>.
\<close>

subsection \<open>Constants and the C library\<close>

definition BUFFER_SIZE :: nat where
  "BUFFER_SIZE = 256"

definition MAX_PATH_LENGTH :: nat where
  "MAX_PATH_LENGTH = 256"

definition MAX_FILENAME_LENGTH :: nat where
  "MAX_FILENAME_LENGTH = 256"

definition EXIT_SUCCESS :: int where
  "EXIT_SUCCESS = 0"

definition EOF :: int where
  "EOF = - 1"

definition NUL :: char where
  "NUL = CHR 0x00"

definition newline :: char where
  "newline = CHR 0x0A"

definition slash :: char where
  "slash = CHR ''/''"

text \<open>\<open>isspace\<close> in the C locale: space, \<open>\t\<close>, \<open>\n\<close>, \<open>\v\<close>, \<open>\f\<close>, \<open>\r\<close>.\<close>

definition isspace :: "char \<Rightarrow> bool" where
  "isspace c = (c = CHR 0x20 \<or> c = CHR 0x09 \<or> c = CHR 0x0A \<or> c = CHR 0x0B \<or>
                c = CHR 0x0C \<or> c = CHR 0x0D)"

definition graphic :: "char \<Rightarrow> bool" where
  "graphic c = (\<not> isspace c)"

text \<open>The content of a character array read as a C string: up to the first NUL.\<close>

definition c_str :: "string \<Rightarrow> string" where
  "c_str a = takeWhile (\<lambda>c. c \<noteq> NUL) a"

text \<open>\<open>strnlen\<close> counts the characters in front of the first NUL, at most \<open>n\<close>.\<close>

definition strnlen :: "string \<Rightarrow> nat \<Rightarrow> nat" where
  "strnlen s n = min (length (c_str s)) n"

text \<open>
  \<open>strncmp\<close> compares at most \<open>n\<close> characters; a string that ends first compares
  its terminating NUL (value 0) with the other string's character.
\<close>

fun strncmp :: "string \<Rightarrow> string \<Rightarrow> nat \<Rightarrow> int" where
  "strncmp a b 0 = 0"
| "strncmp [] [] (Suc n) = 0"
| "strncmp [] (y # ys) (Suc n) = - int (of_char y :: nat)"
| "strncmp (x # xs) [] (Suc n) = int (of_char x :: nat)"
| "strncmp (x # xs) (y # ys) (Suc n) =
     (if x = y then strncmp xs ys n else int (of_char x :: nat) - int (of_char y :: nat))"

text \<open>
  \<open>sscanf\<close>, for the formats of this program: ordinary characters, white space
  and one final \<open>%s\<close>. An ordinary character must be the next input character; white
  space in the format skips any white space of the input, also none; \<open>%s\<close> skips
  white space and stores the characters up to the next white space. The result is the
  number of conversions stored and the stored token, or \<open>EOF\<close> when the input ends
  before the first conversion.
\<close>

datatype directive = Lit char | Space | Conv_s

fun parse_format :: "string \<Rightarrow> directive list" where
  "parse_format [] = []"
| "parse_format [c] = [if isspace c then Space else Lit c]"
| "parse_format (c # d # cs) =
     (if c = CHR ''%'' \<and> d = CHR ''s'' then Conv_s # parse_format cs
      else (if isspace c then Space else Lit c) # parse_format (d # cs))"

fun scan :: "directive list \<Rightarrow> string \<Rightarrow> int \<times> string option" where
  "scan [] inp = (0, None)"
| "scan (Space # ds) inp = scan ds (dropWhile isspace inp)"
| "scan (Lit c # ds) [] = (EOF, None)"
| "scan (Lit c # ds) (x # xs) = (if x = c then scan ds xs else (0, None))"
| "scan (Conv_s # ds) inp =
     (case dropWhile isspace inp of
        [] \<Rightarrow> (EOF, None)
      | x # xs \<Rightarrow> (1, Some (takeWhile graphic (x # xs))))"

definition sscanf :: "string \<Rightarrow> string \<Rightarrow> int \<times> string option" where
  "sscanf str format = scan (parse_format format) str"

text \<open>\<open>%u\<close> of a value cast to \<open>unsigned\<close> (32 bits): its decimal digits.\<close>

fun decimal :: "nat \<Rightarrow> string" where
  "decimal n = (if n < 10 then [char_of (48 + n)]
                else decimal (n div 10) @ [char_of (48 + n mod 10)])"

definition print_unsigned :: "nat \<Rightarrow> string" where
  "print_unsigned n = decimal (n mod 2 ^ 32)"

subsection \<open>The operating system\<close>

text \<open>
  The file system is a list of entries, each an absolute path with its node, in the
  order \<open>readdir\<close> reports them. A path that starts with a slash is taken as it is,
  the path \<open>.\<close> is the working directory, any other path is appended to the working
  directory; symbolic links, \<open>..\<close> and permissions (the mode of \<open>mkdir\<close>) are
  not modelled. Every system call with a path argument, and \<open>getcwd\<close>, is recorded
  in \<open>trace\<close>, so that a theorem can say which calls a command line led to.
\<close>

datatype node =
    File (st_ino: nat) (st_nlink: nat) (content: string)
  | Dir (st_ino: nat) (st_nlink: nat) (dir_size: nat)

datatype error_number =
  ENOENT | EEXIST | ENOTDIR | EISDIR | ENOTEMPTY | EBUSY | ERANGE

datatype syscall =
    Chdir string | Opendir string | Open string | Mkdir string | Rmdir string
  | Unlink string | Stat string | Getcwd

datatype fault = OutOfBounds int | NullDereference

record shell =
  filename :: string
  fs :: "(string \<times> node) list"
  cwd :: string
  pw_dir :: "string option"
  stdin :: string
  stdout :: string
  stderr :: string
  errno :: error_number
  trace :: "syscall list"

definition strerror :: "error_number \<Rightarrow> string" where
  "strerror e = (case e of
       ENOENT \<Rightarrow> ''No such file or directory''
     | EEXIST \<Rightarrow> ''File exists''
     | ENOTDIR \<Rightarrow> ''Not a directory''
     | EISDIR \<Rightarrow> ''Is a directory''
     | ENOTEMPTY \<Rightarrow> ''Directory not empty''
     | EBUSY \<Rightarrow> ''Device or resource busy''
     | ERANGE \<Rightarrow> ''Numerical result out of range'')"

definition is_dir :: "node \<Rightarrow> bool" where
  "is_dir n = (case n of Dir _ _ _ \<Rightarrow> True | File _ _ _ \<Rightarrow> False)"

definition st_size :: "node \<Rightarrow> nat" where
  "st_size n = (case n of File _ _ c \<Rightarrow> length c | Dir _ _ sz \<Rightarrow> sz)"

definition resolve :: "string \<Rightarrow> string \<Rightarrow> string" where
  "resolve wd path =
     (if path = ''.'' then wd
      else if take 1 path = [slash] then path
      else if wd = [slash] then wd @ path
      else wd @ [slash] @ path)"

definition parent_dir :: "string \<Rightarrow> string" where
  "parent_dir p =
     (let d = rev (drop 1 (dropWhile (\<lambda>c. c \<noteq> slash) (rev p)))
      in if d = [] then [slash] else d)"

definition last_component :: "string \<Rightarrow> string" where
  "last_component p = rev (takeWhile (\<lambda>c. c \<noteq> slash) (rev p))"

definition child_of :: "string \<Rightarrow> string \<Rightarrow> bool" where
  "child_of d p = (p \<noteq> d \<and> parent_dir p = d)"

definition children :: "(string \<times> node) list \<Rightarrow> string \<Rightarrow> string list" where
  "children tab d = filter (child_of d) (map fst tab)"

definition remove_entry :: "string \<Rightarrow> (string \<times> node) list \<Rightarrow> (string \<times> node) list" where
  "remove_entry p tab = filter (\<lambda>e. fst e \<noteq> p) tab"

definition fresh_ino :: "(string \<times> node) list \<Rightarrow> nat" where
  "fresh_ino tab = Suc (fold max (map (\<lambda>e. st_ino (snd e)) tab) 0)"

definition log_call :: "syscall \<Rightarrow> shell \<Rightarrow> shell" where
  "log_call c s = s\<lparr>trace := trace s @ [c]\<rparr>"

definition failed :: "error_number \<Rightarrow> shell \<Rightarrow> int \<times> shell" where
  "failed e s = (- 1, s\<lparr>errno := e\<rparr>)"

definition namei :: "string \<Rightarrow> shell \<Rightarrow> error_number + string \<times> node" where
  "namei path s =
     (if path = [] then Inl ENOENT
      else (case map_of (fs s) (resolve (cwd s) path) of
              None \<Rightarrow> Inl ENOENT
            | Some n \<Rightarrow> Inr (resolve (cwd s) path, n)))"

definition sys_chdir :: "string \<Rightarrow> shell \<Rightarrow> int \<times> shell" where
  "sys_chdir path s0 =
     (let s = log_call (Chdir path) s0 in
      case namei path s of
        Inl e \<Rightarrow> failed e s
      | Inr (p, n) \<Rightarrow> if is_dir n then (0, s\<lparr>cwd := p\<rparr>) else failed ENOTDIR s)"

definition sys_getcwd :: "nat \<Rightarrow> shell \<Rightarrow> string option \<times> shell" where
  "sys_getcwd len s0 =
     (let s = log_call Getcwd s0 in
      case map_of (fs s) (cwd s) of
        None \<Rightarrow> (None, s\<lparr>errno := ENOENT\<rparr>)
      | Some n \<Rightarrow> if length (cwd s) < len then (Some (cwd s), s)
                  else (None, s\<lparr>errno := ERANGE\<rparr>))"

definition sys_mkdir :: "string \<Rightarrow> nat \<Rightarrow> shell \<Rightarrow> int \<times> shell" where
  "sys_mkdir path mode s0 =
     (let s = log_call (Mkdir path) s0; p = resolve (cwd s) path in
      if path = [] then failed ENOENT s
      else (case map_of (fs s) p of
              Some n \<Rightarrow> failed EEXIST s
            | None \<Rightarrow>
                (case map_of (fs s) (parent_dir p) of
                   None \<Rightarrow> failed ENOENT s
                 | Some d \<Rightarrow>
                     if is_dir d then (0, s\<lparr>fs := fs s @ [(p, Dir (fresh_ino (fs s)) 2 4096)]\<rparr>)
                     else failed ENOTDIR s)))"

definition sys_rmdir :: "string \<Rightarrow> shell \<Rightarrow> int \<times> shell" where
  "sys_rmdir path s0 =
     (let s = log_call (Rmdir path) s0 in
      case namei path s of
        Inl e \<Rightarrow> failed e s
      | Inr (p, n) \<Rightarrow>
          if is_dir n then
            (if p = [slash] then failed EBUSY s
             else if children (fs s) p = [] then (0, s\<lparr>fs := remove_entry p (fs s)\<rparr>)
             else failed ENOTEMPTY s)
          else failed ENOTDIR s)"

definition sys_unlink :: "string \<Rightarrow> shell \<Rightarrow> int \<times> shell" where
  "sys_unlink path s0 =
     (let s = log_call (Unlink path) s0 in
      case namei path s of
        Inl e \<Rightarrow> failed e s
      | Inr (p, n) \<Rightarrow>
          if is_dir n then failed EISDIR s
          else (0, s\<lparr>fs := remove_entry p (fs s)\<rparr>))"

definition sys_stat :: "string \<Rightarrow> shell \<Rightarrow> node option \<times> shell" where
  "sys_stat path s0 =
     (let s = log_call (Stat path) s0 in
      case namei path s of
        Inl e \<Rightarrow> (None, s\<lparr>errno := e\<rparr>)
      | Inr (p, n) \<Rightarrow> (Some n, s))"

text \<open>\<open>opendir\<close> yields the directory stream: the names \<open>readdir\<close> will report.\<close>

definition sys_opendir :: "string \<Rightarrow> shell \<Rightarrow> string list option \<times> shell" where
  "sys_opendir path s0 =
     (let s = log_call (Opendir path) s0 in
      case namei path s of
        Inl e \<Rightarrow> (None, s\<lparr>errno := e\<rparr>)
      | Inr (p, n) \<Rightarrow>
          if is_dir n then (Some (''.'' # ''..'' # map last_component (children (fs s) p)), s)
          else (None, s\<lparr>errno := ENOTDIR\<rparr>))"

text \<open>
  An open file description: the node and the offset of the next read. \<open>read\<close>
  delivers the next bytes of a regular file, at most \<open>count\<close> of them, and fails on
  a directory.
\<close>

record open_file =
  of_node :: node
  of_offset :: nat

definition sys_open :: "string \<Rightarrow> shell \<Rightarrow> open_file option \<times> shell" where
  "sys_open path s0 =
     (let s = log_call (Open path) s0 in
      case namei path s of
        Inl e \<Rightarrow> (None, s\<lparr>errno := e\<rparr>)
      | Inr (p, n) \<Rightarrow> (Some \<lparr>of_node = n, of_offset = 0\<rparr>, s))"

definition sys_read :: "open_file \<Rightarrow> nat \<Rightarrow> shell \<Rightarrow> (int \<times> string \<times> open_file) \<times> shell" where
  "sys_read fd count s =
     (case of_node fd of
        Dir _ _ _ \<Rightarrow> ((- 1, [], fd), s\<lparr>errno := EISDIR\<rparr>)
      | File _ _ c \<Rightarrow>
          (let buf = take count (drop (of_offset fd) c)
           in ((int (length buf), buf, fd\<lparr>of_offset := of_offset fd + length buf\<rparr>), s)))"

text \<open>Output: the bytes handed to descriptor 1 and to \<open>stderr\<close>, in program order.\<close>

definition sys_write :: "string \<Rightarrow> shell \<Rightarrow> shell" where
  "sys_write buf s = s\<lparr>stdout := stdout s @ buf\<rparr>"

definition printf :: "string \<Rightarrow> shell \<Rightarrow> shell" where
  "printf msg s = s\<lparr>stdout := stdout s @ msg\<rparr>"

definition fprintf_stderr :: "string \<Rightarrow> shell \<Rightarrow> shell" where
  "fprintf_stderr msg s = s\<lparr>stderr := stderr s @ msg\<rparr>"

text \<open>
  \<open>fgets\<close> takes at most \<open>n - 1\<close> characters from the input, through the first
  newline; at the end of the input it returns no line.
\<close>

fun read_line :: "nat \<Rightarrow> string \<Rightarrow> string \<times> string" where
  "read_line 0 inp = ([], inp)"
| "read_line (Suc k) [] = ([], [])"
| "read_line (Suc k) (c # cs) =
     (if c = newline then ([c], cs)
      else (case read_line k cs of (l, r) \<Rightarrow> (c # l, r)))"

definition fgets :: "nat \<Rightarrow> string \<Rightarrow> (string \<times> string) option" where
  "fgets n inp = (if inp = [] then None else Some (read_line (n - 1) inp))"

subsection \<open>The program\<close>

text \<open>
  \<open>strip_trailing_whitespace\<close>: the index starts at the last character and moves
  down while the character under it is white space, storing NUL there. Nothing in the
  loop stops the index at 0; an index outside the string is the fault
  \<open>OutOfBounds\<close>.
\<close>

function strip_loop :: "string \<Rightarrow> int \<Rightarrow> fault + string" where
  "strip_loop string i =
     (if i < 0 \<or> int (length string) \<le> i then Inl (OutOfBounds i)
      else if isspace (string ! nat i) then strip_loop (string[nat i := NUL]) (i - 1)
      else Inr string)"
  by pat_completeness auto
termination
  by (relation "measure (\<lambda>(string, i). nat (i + 1))") auto

definition strip_trailing_whitespace :: "string \<Rightarrow> fault + string" where
  "strip_trailing_whitespace string =
     (let i = int (strnlen string BUFFER_SIZE) - 1 in
      case strip_loop string i of
        Inl f \<Rightarrow> Inl f
      | Inr a \<Rightarrow> Inr (c_str a))"

definition display_prompt :: "shell \<Rightarrow> shell" where
  "display_prompt s =
     (case sys_getcwd MAX_PATH_LENGTH s of
        (Some current_dir, s1) \<Rightarrow>
          printf (''myshell:'' @ [CHR 0x1B] @ ''[32;1m'' @ current_dir @ [CHR 0x1B] @ ''[0m> '') s1
      | (None, s1) \<Rightarrow> s1)"

text \<open>
  \<open>do_cd\<close>: its argument \<open>dirname\<close> is the global \<open>filename\<close> at the only call,
  so the \<open>strncpy\<close> of the home directory writes \<open>filename\<close>. \<open>getpwuid\<close> may
  return a null pointer, which \<open>p->pw_dir\<close> then dereferences; \<open>strncpy\<close> leaves
  the array without a terminating NUL when the home directory has
  \<open>MAX_PATH_LENGTH\<close> characters or more, and \<open>chdir\<close> then reads past its end.
\<close>

definition do_cd :: "shell \<Rightarrow> fault + int \<times> shell" where
  "do_cd s =
     (case (if strnlen (filename s) MAX_PATH_LENGTH = 0 then
              (case pw_dir s of
                 None \<Rightarrow> Inl NullDereference
               | Some home \<Rightarrow>
                   if length home < MAX_PATH_LENGTH then Inr (s\<lparr>filename := home\<rparr>)
                   else Inl (OutOfBounds (int MAX_FILENAME_LENGTH)))
            else Inr s) of
        Inl f \<Rightarrow> Inl f
      | Inr s1 \<Rightarrow>
          (case sys_chdir (filename s1) s1 of (r, s2) \<Rightarrow>
             if r < 0 then Inr (- 1, fprintf_stderr (''cd: '' @ strerror (errno s2) @ [newline]) s2)
             else Inr (0, s2)))"

fun readdir_loop :: "string list \<Rightarrow> shell \<Rightarrow> shell" where
  "readdir_loop [] s = s"
| "readdir_loop (d_name # dir) s = readdir_loop dir (printf (d_name @ [newline]) s)"

definition do_ls :: "string \<Rightarrow> shell \<Rightarrow> int \<times> shell" where
  "do_ls dirname s =
     (case sys_opendir dirname s of
        (None, s1) \<Rightarrow> (- 1, fprintf_stderr (''ls: '' @ strerror (errno s1) @ [newline]) s1)
      | (Some dir, s1) \<Rightarrow> (0, readdir_loop dir s1))"

text \<open>
  \<open>do_cat\<close>: the loop reads into a buffer of 256 bytes and writes what it read,
  until \<open>read\<close> returns 0 or less; the function returns 0 after the descriptor was
  opened, also when \<open>read\<close> failed.
\<close>

definition remaining :: "open_file \<Rightarrow> nat" where
  "remaining fd = (case of_node fd of File _ _ c \<Rightarrow> length c - of_offset fd | Dir _ _ _ \<Rightarrow> 0)"

function cat_loop :: "open_file \<Rightarrow> shell \<Rightarrow> int \<times> shell" where
  "cat_loop fd s =
     (case sys_read fd 256 s of ((bytes, buf, fd'), s1) \<Rightarrow>
        if 0 < bytes then cat_loop fd' (sys_write buf s1) else (bytes, s1))"
  by pat_completeness auto
termination
  by (relation "measure (\<lambda>(fd, s). remaining fd)")
     (auto simp: sys_read_def remaining_def split: node.splits)

definition do_cat :: "string \<Rightarrow> shell \<Rightarrow> int \<times> shell" where
  "do_cat name s =
     (case sys_open name s of
        (None, s1) \<Rightarrow> (- 1, fprintf_stderr (''cat: '' @ strerror (errno s1) @ [newline]) s1)
      | (Some fd, s1) \<Rightarrow>
          (case cat_loop fd s1 of (bytes, s2) \<Rightarrow>
             (0, if bytes < 0 then fprintf_stderr (''cat: '' @ strerror (errno s2) @ [newline]) s2
                 else s2)))"

text \<open>The mode of \<open>mkdir\<close> is octal 0755, that is \<open>0x1ED\<close>.\<close>

definition do_mkdir :: "string \<Rightarrow> shell \<Rightarrow> int \<times> shell" where
  "do_mkdir dirname s =
     (case sys_mkdir dirname 0x1ED s of (r, s1) \<Rightarrow>
        if r < 0 then (- 1, fprintf_stderr (''mkdir: '' @ strerror (errno s1) @ [newline]) s1)
        else (0, s1))"

definition do_rmdir :: "string \<Rightarrow> shell \<Rightarrow> int \<times> shell" where
  "do_rmdir dirname s =
     (case sys_rmdir dirname s of (r, s1) \<Rightarrow>
        if r < 0 then (- 1, fprintf_stderr (''rmdir: '' @ strerror (errno s1) @ [newline]) s1)
        else (0, s1))"

definition do_pwd :: "shell \<Rightarrow> int \<times> shell" where
  "do_pwd s =
     (case sys_getcwd MAX_PATH_LENGTH s of
        (Some current_dir, s1) \<Rightarrow> (1, printf (current_dir @ [newline]) s1)
      | (None, s1) \<Rightarrow> (1, s1))"

definition do_rm :: "string \<Rightarrow> shell \<Rightarrow> int \<times> shell" where
  "do_rm name s =
     (case sys_unlink name s of (r, s1) \<Rightarrow>
        if r < 0 then (- 1, fprintf_stderr (''rm: '' @ strerror (errno s1) @ [newline]) s1)
        else (0, s1))"

definition do_stat :: "string \<Rightarrow> shell \<Rightarrow> int \<times> shell" where
  "do_stat name s =
     (case sys_stat name s of
        (None, s1) \<Rightarrow> (- 1, fprintf_stderr (''stat: '' @ strerror (errno s1) @ [newline]) s1)
      | (Some st, s1) \<Rightarrow>
          (0, printf (''Inode: '' @ print_unsigned (st_ino st) @ [newline])
               (printf (''Links: '' @ print_unsigned (st_nlink st) @ [newline])
                 (printf (''Size: '' @ print_unsigned (st_size st) @ '' bytes'' @ [newline])
                   (printf (''File: '' @ name @ [newline]) s1)))))"

text \<open>
  \<open>sscanf\<close> with the global \<open>filename\<close> as the target of \<open>%s\<close>: the token is
  stored only when the conversion succeeds. The buffer holds at most 255 characters,
  so a token of it fits the 256 bytes of \<open>filename\<close>.
\<close>

definition sscanf_filename :: "string \<Rightarrow> string \<Rightarrow> shell \<Rightarrow> int \<times> shell" where
  "sscanf_filename str format s =
     (case sscanf str format of
        (n, Some tok) \<Rightarrow> (n, s\<lparr>filename := tok\<rparr>)
      | (n, None) \<Rightarrow> (n, s))"

definition not_found :: "string \<Rightarrow> shell \<Rightarrow> int \<times> shell" where
  "not_found buffer s =
     (if strnlen buffer BUFFER_SIZE = 0 then (- 1, s)
      else (- 1, fprintf_stderr
                   (''myshell: '' @ buffer @ '': No such file or directory'' @ [newline]) s))"

definition execute_command :: "string \<Rightarrow> shell \<Rightarrow> int \<times> shell" where
  "execute_command buffer s =
     (case sscanf_filename buffer ''cat %s'' s of (n1, s1) \<Rightarrow>
      if n1 = 1 then do_cat (filename s1) s1 else
     (case sscanf_filename buffer ''stat %s'' s1 of (n2, s2) \<Rightarrow>
      if n2 = 1 then do_stat (filename s2) s2 else
     (case sscanf_filename buffer ''mkdir %s'' s2 of (n3, s3) \<Rightarrow>
      if n3 = 1 then do_mkdir (filename s3) s3 else
     (case sscanf_filename buffer ''rmdir %s'' s3 of (n4, s4) \<Rightarrow>
      if n4 = 1 then do_rmdir (filename s4) s4 else
     (case sscanf_filename buffer ''rm %s'' s4 of (n5, s5) \<Rightarrow>
      if n5 = 1 then do_rm (filename s5) s5 else
     (case sscanf_filename buffer ''ls %s'' s5 of (n6, s6) \<Rightarrow>
      if n6 = 1 \<or> strncmp buffer ''ls'' BUFFER_SIZE = 0 then
        (let s7 = (if strnlen (filename s6) BUFFER_SIZE = 0 then s6\<lparr>filename := ''.''\<rparr>
                   else s6)
         in do_ls (filename s7) s7)
      else if strncmp buffer ''pwd'' BUFFER_SIZE = 0 then do_pwd s6
      else not_found buffer s6))))))"

text \<open>
  The body of the loop of \<open>main\<close>, from the line \<open>fgets\<close> delivered: strip it, clear
  \<open>filename\<close>, then \<open>cd\<close>, \<open>exit\<close> or \<open>execute_command\<close>. The values
  the built-ins return are dropped here.
\<close>

datatype control = Continue | Exit int

definition main_dispatch :: "string \<Rightarrow> shell \<Rightarrow> fault + control \<times> shell" where
  "main_dispatch buffer s0 =
     (case sscanf_filename buffer ''cd %s'' (s0\<lparr>filename := []\<rparr>) of (n, s1) \<Rightarrow>
        if n = 1 \<or> strncmp buffer ''cd'' BUFFER_SIZE = 0 then
          (case do_cd s1 of Inl f \<Rightarrow> Inl f | Inr (r, s2) \<Rightarrow> Inr (Continue, s2))
        else if strncmp buffer ''exit'' BUFFER_SIZE = 0 then Inr (Exit EXIT_SUCCESS, s1)
        else (case execute_command buffer s1 of (r, s2) \<Rightarrow> Inr (Continue, s2)))"

definition main_body :: "string \<Rightarrow> shell \<Rightarrow> fault + control \<times> shell" where
  "main_body line s =
     (case strip_trailing_whitespace line of
        Inl f \<Rightarrow> Inl f
      | Inr buffer \<Rightarrow> main_dispatch buffer s)"

definition main_iteration :: "shell \<Rightarrow> fault + control \<times> shell" where
  "main_iteration s0 =
     (let s = display_prompt s0 in
      case fgets BUFFER_SIZE (stdin s) of
        None \<Rightarrow> Inr (Continue, s)
      | Some (line, rest) \<Rightarrow> main_body line (s\<lparr>stdin := rest\<rparr>))"

text \<open>
  \<open>while (true)\<close>: the loop ends only through \<open>exit\<close>. With \<open>n\<close> iterations of
  fuel the result is the exit status, or \<open>None\<close> when the loop is still running.
\<close>

fun main :: "nat \<Rightarrow> shell \<Rightarrow> fault + int option \<times> shell" where
  "main 0 s = Inr (None, s)"
| "main (Suc n) s =
     (case main_iteration s of
        Inl f \<Rightarrow> Inl f
      | Inr (Exit status, s1) \<Rightarrow> Inr (Some status, s1)
      | Inr (Continue, s1) \<Rightarrow> main n s1)"

subsection \<open>Keywords, well-formed file systems, example states\<close>

text \<open>
  The two tests the source applies to the buffer: \<open>sscanf\<close> with the keyword, a
  blank and \<open>%s\<close> returning 1, and \<open>strncmp\<close> with the keyword returning 0.
  \<open>matches\<close> says which of them the source uses for each keyword, and
  \<open>keyword_order\<close> is the order in which \<open>main\<close> and \<open>execute_command\<close> try them.
\<close>

definition keyword_with_argument :: "string \<Rightarrow> string \<Rightarrow> bool" where
  "keyword_with_argument kw buffer = (fst (sscanf buffer (kw @ '' %s'')) = 1)"

definition keyword_alone :: "string \<Rightarrow> string \<Rightarrow> bool" where
  "keyword_alone kw buffer = (strncmp buffer kw BUFFER_SIZE = 0)"

definition matches :: "string \<Rightarrow> string \<Rightarrow> bool" where
  "matches kw buffer =
     (if kw = ''cd'' \<or> kw = ''ls'' then keyword_with_argument kw buffer \<or> keyword_alone kw buffer
      else if kw = ''exit'' \<or> kw = ''pwd'' then keyword_alone kw buffer
      else keyword_with_argument kw buffer)"

definition keyword_order :: "string list" where
  "keyword_order = [''cd'', ''exit'', ''cat'', ''stat'', ''mkdir'', ''rmdir'', ''rm'', ''ls'', ''pwd'']"

definition matches_no_keyword :: "string \<Rightarrow> bool" where
  "matches_no_keyword buffer = (find (\<lambda>kw. matches kw buffer) keyword_order = None)"

text \<open>
  A keyword as a word of its own, in the words of the specification: the line starts
  with the keyword, and white space or the end of the line follows it.
\<close>

definition keyword_as_word :: "string \<Rightarrow> string \<Rightarrow> bool" where
  "keyword_as_word kw line =
     (take (length kw) line = kw \<and>
      (case drop (length kw) line of [] \<Rightarrow> True | c # cs \<Rightarrow> isspace c))"

text \<open>
  First match over the keyword list, in the words of the specification: the first
  keyword of the list that the line matches selects the built-in, which runs on the
  token that follows the keyword (\<open>exit\<close> and \<open>pwd\<close> take none, \<open>ls\<close> without
  one lists \<open>.\<close>); a line that matches none is reported as not found.
\<close>

definition argument :: "string \<Rightarrow> string \<Rightarrow> string" where
  "argument kw buffer =
     (case snd (sscanf buffer (kw @ '' %s'')) of Some tok \<Rightarrow> tok | None \<Rightarrow> [])"

definition continue :: "int \<times> shell \<Rightarrow> fault + control \<times> shell" where
  "continue r = Inr (Continue, snd r)"

definition invoke :: "string \<Rightarrow> string \<Rightarrow> shell \<Rightarrow> fault + control \<times> shell" where
  "invoke kw arg s =
     (if kw = ''cd'' then
        (case do_cd (s\<lparr>filename := arg\<rparr>) of
           Inl f \<Rightarrow> Inl f
         | Inr (r, s1) \<Rightarrow> Inr (Continue, s1))
      else if kw = ''exit'' then Inr (Exit EXIT_SUCCESS, s\<lparr>filename := []\<rparr>)
      else if kw = ''cat'' then continue (do_cat arg (s\<lparr>filename := arg\<rparr>))
      else if kw = ''stat'' then continue (do_stat arg (s\<lparr>filename := arg\<rparr>))
      else if kw = ''mkdir'' then continue (do_mkdir arg (s\<lparr>filename := arg\<rparr>))
      else if kw = ''rmdir'' then continue (do_rmdir arg (s\<lparr>filename := arg\<rparr>))
      else if kw = ''rm'' then continue (do_rm arg (s\<lparr>filename := arg\<rparr>))
      else if kw = ''ls'' then
        (if arg = [] then continue (do_ls ''.'' (s\<lparr>filename := ''.''\<rparr>))
         else continue (do_ls arg (s\<lparr>filename := arg\<rparr>)))
      else continue (do_pwd (s\<lparr>filename := []\<rparr>)))"

definition first_match :: "string \<Rightarrow> shell \<Rightarrow> fault + control \<times> shell" where
  "first_match buffer s =
     (case find (\<lambda>kw. matches kw buffer) keyword_order of
        None \<Rightarrow> continue (not_found buffer (s\<lparr>filename := []\<rparr>))
      | Some kw \<Rightarrow> invoke kw (argument kw buffer) s)"

text \<open>
  In a well-formed file system every entry lies in a directory that is an entry too
  (the root lies in itself).
\<close>

definition wf_fs :: "(string \<times> node) list \<Rightarrow> bool" where
  "wf_fs tab =
     list_all (\<lambda>p. case map_of tab (parent_dir p) of None \<Rightarrow> False | Some n \<Rightarrow> is_dir n)
       (map fst tab)"

definition example_shell :: shell where
  "example_shell =
     \<lparr>filename = ''old'',
      fs = [(''/'', Dir 2 3 4096), (''/home'', Dir 3 3 4096), (''/home/u'', Dir 4 2 4096),
            (''/home/u/f'', File 5 1 ''hello''), (''/home/u/dir'', File 6 1 ''x'')],
      cwd = ''/home/u'', pw_dir = Some ''/home/u'', stdin = [], stdout = [], stderr = [],
      errno = ENOENT, trace = []\<rparr>"


text \<open>A file longer than one buffer of \<open>do_cat\<close>.\<close>

definition long_content :: string where
  "long_content = replicate 300 CHR ''a'' @ ''end''"

definition long_file_shell :: shell where
  "long_file_shell =
     example_shell\<lparr>fs := fs example_shell @ [(''/home/u/big'', File 9 1 long_content)]\<rparr>"

section \<open>Properties\<close>

declare strip_loop.simps [simp del] cat_loop.simps [simp del]

subsection \<open>Strings without a NUL\<close>

lemma isspace_not_NUL: "isspace c \<Longrightarrow> c \<noteq> NUL"
  by (auto simp: isspace_def NUL_def)

lemma c_str_id: "NUL \<notin> set s \<Longrightarrow> c_str s = s"
  by (auto simp: c_str_def)

lemma strnlen_plain: "NUL \<notin> set s \<Longrightarrow> strnlen s n = min (length s) n"
  by (simp add: strnlen_def c_str_id)

lemma strnlen_Nil: "strnlen [] n = 0"
  by (simp add: strnlen_def c_str_def)

lemma strnlen_0: "NUL \<notin> set x \<Longrightarrow> strnlen x BUFFER_SIZE = 0 \<longleftrightarrow> x = []"
  by (cases x) (simp_all add: strnlen_plain BUFFER_SIZE_def)

subsection \<open>Stripping the line\<close>

lemma strip_loop_space:
  "\<forall>c\<in>set ws. isspace c \<Longrightarrow>
   strip_loop (xs @ ws @ zs) (int (length xs + length ws) - 1) =
   strip_loop (xs @ replicate (length ws) NUL @ zs) (int (length xs) - 1)"
proof (induction ws arbitrary: zs rule: rev_induct)
  case Nil
  then show ?case by simp
next
  case (snoc w ws)
  have idx: "(xs @ (ws @ [w]) @ zs) ! (length xs + length ws) = w"
    by (simp add: nth_append)
  have upd: "(xs @ (ws @ [w]) @ zs)[length xs + length ws := NUL] = xs @ ws @ NUL # zs"
    by (simp add: list_update_append)
  have "strip_loop (xs @ (ws @ [w]) @ zs) (int (length xs + length (ws @ [w])) - 1) =
        strip_loop (xs @ ws @ NUL # zs) (int (length xs + length ws) - 1)"
    using snoc.prems idx upd by (subst strip_loop.simps) (simp add: nat_add_distrib)
  also have "\<dots> = strip_loop (xs @ replicate (length ws) NUL @ NUL # zs) (int (length xs) - 1)"
    using snoc.prems by (intro snoc.IH) simp
  finally show ?case by (simp add: replicate_app_Cons_same)
qed

lemma strip_loop_graphic:
  "graphic x \<Longrightarrow> strip_loop (xs @ x # zs) (int (length xs)) = Inr (xs @ x # zs)"
  by (subst strip_loop.simps) (simp add: graphic_def nth_append)

lemma strip_loop_below: "strip_loop a (- 1) = Inl (OutOfBounds (- 1))"
  by (subst strip_loop.simps) simp

lemma c_str_padded: "NUL \<notin> set xs \<Longrightarrow> c_str (xs @ replicate n NUL) = xs"
proof -
  assume "NUL \<notin> set xs"
  then have "takeWhile (\<lambda>c. c \<noteq> NUL) (xs @ replicate n NUL) =
             xs @ takeWhile (\<lambda>c. c \<noteq> NUL) (replicate n NUL)"
    by (intro takeWhile_append2) auto
  then show ?thesis by (cases n) (simp_all add: c_str_def)
qed

text \<open>
  A line that ends in a visible character is stripped as intended: the white space
  behind the last visible character goes, everything in front of it stays.
\<close>

lemma strip_trailing:
  assumes "graphic x" and "\<forall>c\<in>set ws. isspace c" and "NUL \<notin> set (xs @ [x])"
    and "length (xs @ x # ws) < BUFFER_SIZE"
  shows "strip_trailing_whitespace (xs @ x # ws) = Inr (xs @ [x])"
proof -
  have "strip_loop ((xs @ [x]) @ ws @ []) (int (length (xs @ [x]) + length ws) - 1) =
        strip_loop ((xs @ [x]) @ replicate (length ws) NUL @ []) (int (length (xs @ [x])) - 1)"
    using assms(2) by (rule strip_loop_space)
  moreover have "strip_loop (xs @ x # replicate (length ws) NUL) (int (length xs)) =
        Inr (xs @ x # replicate (length ws) NUL)"
    using assms(1) by (rule strip_loop_graphic)
  ultimately have "strip_loop (xs @ x # ws) (int (length xs + length ws)) =
        Inr ((xs @ [x]) @ replicate (length ws) NUL)"
    by simp
  moreover have "NUL \<notin> set (xs @ x # ws)"
    using assms(2,3) isspace_not_NUL by auto
  then have "strnlen (xs @ x # ws) BUFFER_SIZE = length (xs @ x # ws)"
    using assms(4) by (simp add: strnlen_plain)
  ultimately show ?thesis
    using assms(3) c_str_padded[of "xs @ [x]" "length ws"]
    by (simp add: strip_trailing_whitespace_def)
qed

text \<open>
  A line of white space only, also the empty string, takes the index to \<open>-1\<close>, where
  the loop reads \<open>string[-1]\<close>.
\<close>

lemma strip_all_space:
  assumes "\<forall>c\<in>set line. isspace c" and "length line < BUFFER_SIZE"
  shows "strip_trailing_whitespace line = Inl (OutOfBounds (- 1))"
proof -
  have "strip_loop ([] @ line @ []) (int (length ([]::string) + length line) - 1) =
        strip_loop ([] @ replicate (length line) NUL @ []) (int (length ([]::string)) - 1)"
    using assms(1) by (rule strip_loop_space)
  moreover have "NUL \<notin> set line"
    using assms(1) isspace_not_NUL by auto
  then have "strnlen line BUFFER_SIZE = length line"
    using assms(2) by (simp add: strnlen_plain)
  ultimately show ?thesis
    by (simp add: strip_trailing_whitespace_def strip_loop_below)
qed

text \<open>
  C9 (the code does otherwise). The claim is that \<open>strip_trailing_whitespace\<close> reads
  and writes only indices from 0 to the length minus 1, for every line, also one of
  white space only. For the line a user enters by pressing return, a single newline,
  the function stores NUL at index 0, decrements the index and evaluates
  \<open>isspace(string[-1])\<close>: a read in front of the array.
\<close>

theorem strip_reads_below_the_string:
  "strip_trailing_whitespace [newline] = Inl (OutOfBounds (- 1))"
  by (simp add: strip_trailing_whitespace_def strnlen_def c_str_def NUL_def BUFFER_SIZE_def
      isspace_def newline_def strip_loop.simps)

subsection \<open>The values the built-ins return\<close>

text \<open>
  C1 (the code does otherwise). The claim is that every built-in returns 0 when the
  operating system call succeeds and \<open>-1\<close> when it fails. \<open>do_pwd\<close> returns 1 after
  \<open>getcwd\<close> succeeded and the directory was printed; \<open>do_cat\<close> on a directory, which
  \<open>open\<close> accepts and \<open>read\<close> refuses, prints the error and returns 0.
\<close>

theorem pwd_returns_1_and_cat_returns_0_after_read_error:
  "do_pwd example_shell =
     (1, example_shell\<lparr>stdout := ''/home/u'' @ [newline], trace := [Getcwd]\<rparr>) \<and>
   do_cat ''/home'' example_shell =
     (0, example_shell\<lparr>stderr := ''cat: Is a directory'' @ [newline], errno := EISDIR,
           trace := [Open ''/home'']\<rparr>)"
  by (simp add: do_pwd_def do_cat_def sys_getcwd_def sys_open_def sys_read_def namei_def
      resolve_def log_call_def printf_def fprintf_stderr_def strerror_def slash_def
      example_shell_def MAX_PATH_LENGTH_def cat_loop.simps)

subsection \<open>cat\<close>

lemma cat_loop_file:
  "of_node fd = File i l c \<Longrightarrow>
   cat_loop fd s = (0, s\<lparr>stdout := stdout s @ drop (of_offset fd) c\<rparr>)"
proof (induction "length c - of_offset fd" arbitrary: fd s rule: less_induct)
  case less
  show ?case
  proof (cases "of_offset fd < length c")
    case True
    let ?buf = "take 256 (drop (of_offset fd) c)"
    let ?fd = "fd\<lparr>of_offset := of_offset fd + length ?buf\<rparr>"
    have pos: "0 < length ?buf" using True by simp
    have step: "cat_loop fd s = cat_loop ?fd (sys_write ?buf s)"
      using less.prems pos by (subst cat_loop.simps) (simp add: sys_read_def Let_def)
    have "cat_loop ?fd (sys_write ?buf s) =
          (0, (sys_write ?buf s)\<lparr>stdout := stdout (sys_write ?buf s) @ drop (of_offset ?fd) c\<rparr>)"
      using less.prems pos True by (intro less.hyps) auto
    moreover have "?buf @ drop (of_offset fd + length ?buf) c = drop (of_offset fd) c"
    proof (cases "256 \<le> length (drop (of_offset fd) c)")
      case True
      then have "length ?buf = 256" by simp
      then have "drop (of_offset fd + length ?buf) c = drop 256 (drop (of_offset fd) c)"
        by (simp add: add.commute)
      then show ?thesis by (simp only: append_take_drop_id)
    next
      case False
      then have "?buf = drop (of_offset fd) c" by simp
      then show ?thesis by simp
    qed
    ultimately show ?thesis
      using step by (simp add: sys_write_def)
  next
    case False
    then show ?thesis
      using less.prems by (subst cat_loop.simps) (simp add: sys_read_def Let_def)
  qed
qed

text \<open>
  C2. For every file whose content is the byte sequence \<open>C\<close>, of any length,
  \<open>do_cat\<close> opens it, appends exactly \<open>C\<close> to the standard output and returns 0;
  nothing else of the state changes. The loop delivers \<open>C\<close> in pieces of 256 bytes
  and a last piece of what remains.
\<close>

theorem cat_writes_the_file:
  assumes "name \<noteq> []"
    and "map_of (fs s) (resolve (cwd s) name) = Some (File i l C)"
  shows "do_cat name s = (0, s\<lparr>stdout := stdout s @ C, trace := trace s @ [Open name]\<rparr>)"
  using assms cat_loop_file[of "\<lparr>of_node = File i l C, of_offset = 0\<rparr>" i l C]
  by (simp add: do_cat_def sys_open_def namei_def log_call_def)

theorem cat_writes_the_file_witness:
  "length long_content = 303 \<and>
   do_cat ''big'' long_file_shell =
     (0, long_file_shell\<lparr>stdout := stdout long_file_shell @ long_content,
                         trace := trace long_file_shell @ [Open ''big'']\<rparr>)"
proof -
  have "map_of (fs long_file_shell) (resolve (cwd long_file_shell) ''big'') =
        Some (File 9 1 long_content)"
    by (simp add: long_file_shell_def example_shell_def resolve_def slash_def)
  moreover have "length long_content = 303"
    by (simp add: long_content_def)
  ultimately show ?thesis
    using cat_writes_the_file[of "''big''" long_file_shell 9 1 long_content]
    by simp
qed

subsection \<open>Dispatch\<close>

lemma scan_stores_only_with_1: "fst (scan ds inp) \<noteq> 1 \<Longrightarrow> snd (scan ds inp) = None"
proof (induction ds inp rule: scan.induct)
  case (5 ds inp)
  then show ?case
    by (cases "dropWhile isspace inp") (simp_all add: EOF_def del: dropWhile_eq_Nil_conv)
qed (auto simp: EOF_def split: if_splits)

lemma sscanf_filename_miss:
  "fst (sscanf buffer format) \<noteq> 1 \<Longrightarrow>
   sscanf_filename buffer format s = (fst (sscanf buffer format), s)"
  using scan_stores_only_with_1[of "parse_format format" buffer]
  by (cases "sscanf buffer format") (auto simp: sscanf_filename_def sscanf_def)

lemma strncmp_pos:
  "0 < n \<Longrightarrow> strncmp [] [] n = 0"
  "0 < n \<Longrightarrow> strncmp [] (y # ys) n = - int (of_char y :: nat)"
  "0 < n \<Longrightarrow> strncmp (x # xs) [] n = int (of_char x :: nat)"
  "0 < n \<Longrightarrow> strncmp (x # xs) (y # ys) n =
     (if x = y then strncmp xs ys (n - 1) else int (of_char x :: nat) - int (of_char y :: nat))"
  by (cases n; simp)+

lemma matches_no_keyword_iff:
  "matches_no_keyword buffer \<longleftrightarrow>
     fst (sscanf buffer ''cd %s'') \<noteq> 1 \<and> strncmp buffer ''cd'' BUFFER_SIZE \<noteq> 0 \<and>
     strncmp buffer ''exit'' BUFFER_SIZE \<noteq> 0 \<and>
     fst (sscanf buffer ''cat %s'') \<noteq> 1 \<and> fst (sscanf buffer ''stat %s'') \<noteq> 1 \<and>
     fst (sscanf buffer ''mkdir %s'') \<noteq> 1 \<and> fst (sscanf buffer ''rmdir %s'') \<noteq> 1 \<and>
     fst (sscanf buffer ''rm %s'') \<noteq> 1 \<and>
     fst (sscanf buffer ''ls %s'') \<noteq> 1 \<and> strncmp buffer ''ls'' BUFFER_SIZE \<noteq> 0 \<and>
     strncmp buffer ''pwd'' BUFFER_SIZE \<noteq> 0"
  by (simp add: matches_no_keyword_def keyword_order_def matches_def keyword_with_argument_def
      keyword_alone_def)

text \<open>
  When none of the tests of \<open>main\<close> and \<open>execute_command\<close> succeeds on a
  non-empty buffer, the last branch adds exactly the line
  \<open>myshell: <line>: No such file or directory\<close> to the standard error; the file
  system, the working directory, the standard output and the trace of system calls
  stay as they were.
\<close>

lemma unknown_line_is_reported:
  assumes "buffer \<noteq> []" and "NUL \<notin> set buffer" and "matches_no_keyword buffer"
  shows "main_dispatch buffer s =
           Inr (Continue, s\<lparr>filename := [],
                 stderr := stderr s @ ''myshell: '' @ buffer @ '': No such file or directory'' @ [newline]\<rparr>)"
proof -
  have m: "fst (sscanf buffer ''cd %s'') \<noteq> 1" "strncmp buffer ''cd'' BUFFER_SIZE \<noteq> 0"
     "strncmp buffer ''exit'' BUFFER_SIZE \<noteq> 0"
     "fst (sscanf buffer ''cat %s'') \<noteq> 1" "fst (sscanf buffer ''stat %s'') \<noteq> 1"
     "fst (sscanf buffer ''mkdir %s'') \<noteq> 1" "fst (sscanf buffer ''rmdir %s'') \<noteq> 1"
     "fst (sscanf buffer ''rm %s'') \<noteq> 1"
     "fst (sscanf buffer ''ls %s'') \<noteq> 1" "strncmp buffer ''ls'' BUFFER_SIZE \<noteq> 0"
     "strncmp buffer ''pwd'' BUFFER_SIZE \<noteq> 0"
    using assms(3) unfolding matches_no_keyword_iff by blast+
  have "execute_command buffer (s\<lparr>filename := []\<rparr>) = not_found buffer (s\<lparr>filename := []\<rparr>)"
    using m by (simp add: execute_command_def sscanf_filename_miss)
  moreover have "strnlen buffer BUFFER_SIZE \<noteq> 0"
    using assms(1,2) by (simp add: strnlen_0)
  ultimately show ?thesis
    using m by (simp add: main_dispatch_def sscanf_filename_miss not_found_def fprintf_stderr_def)
qed

lemma foobar_is_reported:
  "main_dispatch ''foobar'' example_shell =
     Inr (Continue, example_shell\<lparr>filename := [],
           stderr := ''myshell: foobar: No such file or directory'' @ [newline]\<rparr>)"
proof -
  have "matches_no_keyword ''foobar''"
    by (simp add: matches_no_keyword_iff sscanf_def BUFFER_SIZE_def strncmp_pos isspace_def)
  then show ?thesis
    using unknown_line_is_reported[of "''foobar''" example_shell]
    by (simp add: example_shell_def NUL_def)
qed

text \<open>
  The dispatch on the empty buffer: no test matches and \<open>execute_command\<close> prints
  nothing, so no system call is made, nothing is written to either stream, and the
  loop goes on.
\<close>

lemma empty_buffer_does_nothing:
  "main_dispatch [] s = Inr (Continue, s\<lparr>filename := []\<rparr>)"
  by (simp add: main_dispatch_def execute_command_def sscanf_filename_def sscanf_def
      not_found_def strnlen_Nil BUFFER_SIZE_def EOF_def isspace_def strncmp_pos)

lemma scan_1_stores:
  "fst (scan ds inp) = 1 \<Longrightarrow> \<exists>tok. snd (scan ds inp) = Some tok \<and> tok \<noteq> []"
proof (induction ds inp rule: scan.induct)
  case (5 ds inp)
  show ?case
  proof (cases "dropWhile isspace inp")
    case Nil
    with 5 show ?thesis by (simp add: EOF_def del: dropWhile_eq_Nil_conv)
  next
    case (Cons x xs)
    then have "\<not> isspace x" using hd_dropWhile[of isspace inp] by auto
    with Cons show ?thesis by (simp add: graphic_def del: dropWhile_eq_Nil_conv)
  qed
qed (auto simp: EOF_def split: if_splits)

lemma sscanf_filename_arg:
  "sscanf_filename buffer (kw @ '' %s'') s =
     (fst (sscanf buffer (kw @ '' %s'')),
      if fst (sscanf buffer (kw @ '' %s'')) = 1 then s\<lparr>filename := argument kw buffer\<rparr> else s)"
proof (cases "fst (sscanf buffer (kw @ '' %s'')) = 1")
  case True
  then obtain tok where "snd (sscanf buffer (kw @ '' %s'')) = Some tok"
    using scan_1_stores[of "parse_format (kw @ '' %s'')" buffer] by (auto simp: sscanf_def)
  with True show ?thesis
    by (cases "sscanf buffer (kw @ '' %s'')") (simp add: sscanf_filename_def argument_def)
next
  case False
  then show ?thesis by (simp add: sscanf_filename_miss)
qed

lemma argument_nonempty:
  "fst (sscanf buffer (kw @ '' %s'')) = 1 \<Longrightarrow> argument kw buffer \<noteq> []"
  using scan_1_stores[of "parse_format (kw @ '' %s'')" buffer]
  by (auto simp: sscanf_def argument_def)

lemma argument_empty:
  "fst (sscanf buffer (kw @ '' %s'')) \<noteq> 1 \<Longrightarrow> argument kw buffer = []"
  using scan_stores_only_with_1[of "parse_format (kw @ '' %s'')" buffer]
  by (auto simp: sscanf_def argument_def)

lemmas sscanf_filename_kw =
  sscanf_filename_arg[of _ "''cd''", simplified] sscanf_filename_arg[of _ "''cat''", simplified]
  sscanf_filename_arg[of _ "''stat''", simplified] sscanf_filename_arg[of _ "''mkdir''", simplified]
  sscanf_filename_arg[of _ "''rmdir''", simplified] sscanf_filename_arg[of _ "''rm''", simplified]
  sscanf_filename_arg[of _ "''ls''", simplified]

lemmas argument_kw =
  argument_nonempty[of _ "''ls''", simplified] argument_empty[of _ "''ls''", simplified]
  argument_empty[of _ "''cd''", simplified]

lemma scan_token_subset: "snd (scan ds inp) = Some tok \<Longrightarrow> set tok \<subseteq> set inp"
proof (induction ds inp rule: scan.induct)
  case (2 ds inp)
  then have "set tok \<subseteq> set (dropWhile isspace inp)" by simp
  then show ?case using set_dropWhileD by fastforce
next
  case (4 c ds x xs)
  then show ?case by (auto split: if_splits)
next
  case (5 ds inp)
  show ?case
  proof (cases "dropWhile isspace inp")
    case Nil
    with 5 show ?thesis by (simp del: dropWhile_eq_Nil_conv)
  next
    case (Cons x xs)
    with 5 have "tok = takeWhile graphic (dropWhile isspace inp)"
      by (simp del: dropWhile_eq_Nil_conv)
    then show ?thesis
      using set_takeWhileD set_dropWhileD by fastforce
  qed
qed simp_all

lemma argument_subset: "set (argument kw buffer) \<subseteq> set buffer"
  using scan_token_subset[of "parse_format (kw @ '' %s'')" buffer]
  by (cases "snd (sscanf buffer (kw @ '' %s''))") (auto simp: argument_def sscanf_def)

lemmas dispatch_defs = main_dispatch_def first_match_def execute_command_def keyword_order_def
  matches_def keyword_with_argument_def keyword_alone_def invoke_def continue_def
  sscanf_filename_kw argument_kw strnlen_Nil case_prod_unfold

text \<open>
  The nested tests of \<open>main\<close> and \<open>execute_command\<close> are first match over the
  keyword list, for every buffer that is the content of a C string.
\<close>

lemma dispatch_is_first_match:
  assumes "NUL \<notin> set buffer"
  shows "main_dispatch buffer s = first_match buffer s"
proof -
  have "NUL \<notin> set (argument ''ls'' buffer)"
    using assms argument_subset[of "''ls''" buffer] by auto
  then have tok: "strnlen (argument ''ls'' buffer) BUFFER_SIZE = 0 \<longleftrightarrow>
      argument ''ls'' buffer = []"
    by (rule strnlen_0)
  let ?cd = "fst (sscanf buffer ''cd %s'') = 1 \<or> strncmp buffer ''cd'' BUFFER_SIZE = 0"
  let ?exit = "strncmp buffer ''exit'' BUFFER_SIZE = 0"
  let ?cat = "fst (sscanf buffer ''cat %s'') = 1"
  let ?stat = "fst (sscanf buffer ''stat %s'') = 1"
  let ?mkdir = "fst (sscanf buffer ''mkdir %s'') = 1"
  let ?rmdir = "fst (sscanf buffer ''rmdir %s'') = 1"
  let ?rm = "fst (sscanf buffer ''rm %s'') = 1"
  let ?ls = "fst (sscanf buffer ''ls %s'') = 1 \<or> strncmp buffer ''ls'' BUFFER_SIZE = 0"
  let ?pwd = "strncmp buffer ''pwd'' BUFFER_SIZE = 0"
  consider (cd) "?cd"
    | (exit) "\<not> ?cd" "?exit"
    | (cat) "\<not> ?cd" "\<not> ?exit" "?cat"
    | (stat) "\<not> ?cd" "\<not> ?exit" "\<not> ?cat" "?stat"
    | (mkdir) "\<not> ?cd" "\<not> ?exit" "\<not> ?cat" "\<not> ?stat" "?mkdir"
    | (rmdir) "\<not> ?cd" "\<not> ?exit" "\<not> ?cat" "\<not> ?stat" "\<not> ?mkdir" "?rmdir"
    | (rm) "\<not> ?cd" "\<not> ?exit" "\<not> ?cat" "\<not> ?stat" "\<not> ?mkdir" "\<not> ?rmdir" "?rm"
    | (ls) "\<not> ?cd" "\<not> ?exit" "\<not> ?cat" "\<not> ?stat" "\<not> ?mkdir" "\<not> ?rmdir" "\<not> ?rm" "?ls"
    | (pwd) "\<not> ?cd" "\<not> ?exit" "\<not> ?cat" "\<not> ?stat" "\<not> ?mkdir" "\<not> ?rmdir" "\<not> ?rm"
        "\<not> ?ls" "?pwd"
    | (none) "\<not> ?cd" "\<not> ?exit" "\<not> ?cat" "\<not> ?stat" "\<not> ?mkdir" "\<not> ?rmdir" "\<not> ?rm"
        "\<not> ?ls" "\<not> ?pwd"
    by blast
  then show ?thesis
  proof cases
    case cd
    then show ?thesis by (auto simp: dispatch_defs)
  next
    case exit
    then show ?thesis by (simp add: dispatch_defs)
  next
    case cat
    then show ?thesis by (simp add: dispatch_defs)
  next
    case stat
    then show ?thesis by (simp add: dispatch_defs)
  next
    case mkdir
    then show ?thesis by (simp add: dispatch_defs)
  next
    case rmdir
    then show ?thesis by (simp add: dispatch_defs)
  next
    case rm
    then show ?thesis by (simp add: dispatch_defs)
  next
    case ls
    then show ?thesis using tok by (auto simp: dispatch_defs)
  next
    case pwd
    then show ?thesis by (simp add: dispatch_defs)
  next
    case none
    then show ?thesis by (simp add: dispatch_defs)
  qed
qed

lemmas eval_defs = main_dispatch_def execute_command_def sscanf_filename_def sscanf_def
  not_found_def strnlen_def c_str_def NUL_def BUFFER_SIZE_def MAX_PATH_LENGTH_def
  MAX_FILENAME_LENGTH_def EOF_def isspace_def graphic_def strncmp_pos
  do_cd_def do_cat_def do_ls_def do_mkdir_def do_rmdir_def do_rm_def do_stat_def do_pwd_def
  sys_chdir_def sys_getcwd_def sys_mkdir_def sys_rmdir_def sys_unlink_def sys_stat_def
  sys_opendir_def sys_open_def sys_read_def sys_write_def namei_def resolve_def log_call_def
  failed_def printf_def fprintf_stderr_def strerror_def slash_def newline_def is_dir_def
  remove_entry_def children_def child_of_def parent_dir_def last_component_def

text \<open>
  C3 (the code does otherwise). The tests are tried in the order \<open>cd\<close>, \<open>exit\<close>,
  \<open>cat\<close>, \<open>stat\<close>, \<open>mkdir\<close>, \<open>rmdir\<close>, \<open>rm\<close>, \<open>ls\<close>, \<open>pwd\<close>
  and the first that succeeds decides, as \<open>dispatch_is_first_match\<close> shows. The
  claim concludes that a line that starts with \<open>rmdir\<close> invokes \<open>rmdir\<close> and never
  \<open>rm\<close>. For the line \<open>rmdir\<close> alone the test for \<open>rmdir\<close> finds no argument,
  and the test for \<open>rm\<close>, tried next, takes \<open>dir\<close> as the argument: the file
  \<open>dir\<close> of the working directory is unlinked.
\<close>

theorem bare_rmdir_runs_rm:
  "main_dispatch ''rmdir'' example_shell =
     Inr (Continue, example_shell\<lparr>filename := ''dir'',
           fs := [(''/'', Dir 2 3 4096), (''/home'', Dir 3 3 4096), (''/home/u'', Dir 4 2 4096),
                  (''/home/u/f'', File 5 1 ''hello'')],
           trace := [Unlink ''dir'']\<rparr>)"
  by (simp add: eval_defs example_shell_def)

text \<open>
  C4 (the code does otherwise). The claim is that a keyword matches only when white
  space or the end of the line follows it. The blank of the formats also matches
  no white space at all, so the line \<open>catf\<close> runs \<open>cat\<close> on \<open>f\<close> and the line
  \<open>cd/home\<close> changes the directory to \<open>/home\<close>; neither is reported as not
  found.
\<close>

theorem keyword_glued_to_argument_matches:
  "main_dispatch ''catf'' example_shell =
     Inr (Continue, example_shell\<lparr>filename := ''f'', stdout := ''hello'',
           trace := [Open ''f'']\<rparr>) \<and>
   main_dispatch ''cd/home'' example_shell =
     Inr (Continue, example_shell\<lparr>filename := ''/home'', cwd := ''/home'',
           trace := [Chdir ''/home'']\<rparr>)"
  by (simp add: eval_defs example_shell_def cat_loop.simps)

text \<open>
  C5 (the code does otherwise). The claim is that every non-empty line that matches
  no keyword is answered by the single line
  \<open>myshell: <line>: No such file or directory\<close> on the standard error, with the
  file system unchanged. The line \<open>rmf\<close> has none of the nine keywords as a word
  of its own, but the test for \<open>rm\<close> accepts it with the argument \<open>f\<close>:
  nothing is written to the standard error and the file \<open>f\<close> is unlinked. The
  message is printed when none of the tests of the source succeeds
  (\<open>unknown_line_is_reported\<close>).
\<close>

theorem unknown_line_rmf_unlinks_a_file:
  "find (\<lambda>kw. keyword_as_word kw ''rmf'') keyword_order = None \<and>
   main_dispatch ''rmf'' example_shell =
     Inr (Continue, example_shell\<lparr>filename := ''f'',
           fs := [(''/'', Dir 2 3 4096), (''/home'', Dir 3 3 4096), (''/home/u'', Dir 4 2 4096),
                  (''/home/u/dir'', File 6 1 ''x'')],
           trace := [Unlink ''f'']\<rparr>)"
  by (simp add: keyword_as_word_def keyword_order_def eval_defs example_shell_def)

subsection \<open>Commands without an argument\<close>

lemma bare_ls: "main_dispatch ''ls'' s = continue (do_ls ''.'' (s\<lparr>filename := ''.''\<rparr>))"
  by (simp add: main_dispatch_def execute_command_def sscanf_filename_def sscanf_def
      strnlen_Nil BUFFER_SIZE_def EOF_def isspace_def strncmp_pos continue_def case_prod_unfold)

lemma bare_cd:
  "main_dispatch ''cd'' s =
     (case do_cd (s\<lparr>filename := []\<rparr>) of Inl f \<Rightarrow> Inl f | Inr r \<Rightarrow> continue r)"
  by (simp add: main_dispatch_def sscanf_filename_def sscanf_def
      BUFFER_SIZE_def EOF_def isspace_def strncmp_pos continue_def case_prod_unfold
      split: sum.splits)


lemma do_cd_home:
  assumes "pw_dir s = Some home" and "length home < MAX_PATH_LENGTH"
  shows "do_cd (s\<lparr>filename := []\<rparr>) =
     Inr (case sys_chdir home (s\<lparr>filename := home\<rparr>) of (r, s2) \<Rightarrow>
            if r < 0 then (- 1, fprintf_stderr (''cd: '' @ strerror (errno s2) @ [newline]) s2)
            else (0, s2))"
  using assms by (simp add: do_cd_def strnlen_Nil case_prod_unfold)

text \<open>
  C10. \<open>main\<close> clears \<open>filename\<close> before the tests of every iteration, so the
  outcome of a line does not depend on what an earlier command left there: whatever
  \<open>filename\<close> held, the line \<open>ls\<close> calls \<open>do_ls\<close> on \<open>.\<close>, and the line
  \<open>cd\<close> calls \<open>chdir\<close> on the home directory of the password record (when there
  is one that fits the array).
\<close>

theorem bare_commands_ignore_earlier_arguments:
  "main_dispatch buffer (s\<lparr>filename := old\<rparr>) = main_dispatch buffer s \<and>
   main_dispatch ''ls'' (s\<lparr>filename := old\<rparr>) = continue (do_ls ''.'' (s\<lparr>filename := ''.''\<rparr>)) \<and>
   (pw_dir s = Some home \<and> length home < MAX_PATH_LENGTH \<longrightarrow>
    main_dispatch ''cd'' (s\<lparr>filename := old\<rparr>) =
      continue (case sys_chdir home (s\<lparr>filename := home\<rparr>) of (r, s2) \<Rightarrow>
            if r < 0 then (- 1, fprintf_stderr (''cd: '' @ strerror (errno s2) @ [newline]) s2)
            else (0, s2)))"
proof -
  have clear: "main_dispatch b (s\<lparr>filename := old\<rparr>) = main_dispatch b s" for b
    by (simp add: main_dispatch_def)
  show ?thesis
    by (simp add: clear bare_ls bare_cd do_cd_home)
qed

theorem bare_commands_ignore_earlier_arguments_witness:
  "main_dispatch ''ls'' (example_shell\<lparr>filename := ''f''\<rparr>) =
     Inr (Continue, example_shell\<lparr>filename := ''.'',
           stdout := ''.'' @ [newline] @ ''..'' @ [newline] @ ''f'' @ [newline] @ ''dir'' @ [newline],
           trace := [Opendir ''.'']\<rparr>) \<and>
   main_dispatch ''cd'' (example_shell\<lparr>filename := ''/home'', cwd := ''/''\<rparr>) =
     Inr (Continue, example_shell\<lparr>filename := ''/home/u'', trace := [Chdir ''/home/u'']\<rparr>)"
  using bare_commands_ignore_earlier_arguments[where buffer = "''ls''" and s = example_shell
      and old = "''f''" and home = "''/home/u''"]
    bare_commands_ignore_earlier_arguments[where buffer = "''cd''"
      and s = "example_shell\<lparr>cwd := ''/''\<rparr>" and old = "''/home''" and home = "''/home/u''"]
  by (simp add: eval_defs example_shell_def continue_def)







subsection \<open>mkdir and rmdir\<close>

lemma formats:
  "parse_format ''cd %s'' = [Lit CHR ''c'', Lit CHR ''d'', Space, Conv_s]"
  "parse_format ''cat %s'' = [Lit CHR ''c'', Lit CHR ''a'', Lit CHR ''t'', Space, Conv_s]"
  "parse_format ''stat %s'' =
     [Lit CHR ''s'', Lit CHR ''t'', Lit CHR ''a'', Lit CHR ''t'', Space, Conv_s]"
  "parse_format ''mkdir %s'' =
     [Lit CHR ''m'', Lit CHR ''k'', Lit CHR ''d'', Lit CHR ''i'', Lit CHR ''r'', Space, Conv_s]"
  "parse_format ''rmdir %s'' =
     [Lit CHR ''r'', Lit CHR ''m'', Lit CHR ''d'', Lit CHR ''i'', Lit CHR ''r'', Space, Conv_s]"
  "parse_format ''rm %s'' = [Lit CHR ''r'', Lit CHR ''m'', Space, Conv_s]"
  "parse_format ''ls %s'' = [Lit CHR ''l'', Lit CHR ''s'', Space, Conv_s]"
  by (simp_all add: isspace_def)

lemma isspace_blank: "isspace CHR '' ''"
  by (simp add: isspace_def)

lemma mkdir_line:
  "execute_command (''mkdir '' @ D) s =
     (case dropWhile isspace D of
        [] \<Rightarrow> (- 1, fprintf_stderr
                 (''myshell: mkdir '' @ D @ '': No such file or directory'' @ [newline]) s)
      | x # xs \<Rightarrow> do_mkdir (takeWhile graphic (x # xs)) (s\<lparr>filename := takeWhile graphic (x # xs)\<rparr>))"
proof -
  have hit: "sscanf (''mkdir '' @ D) ''mkdir %s'' =
          (case dropWhile isspace D of
             [] \<Rightarrow> (EOF, None)
           | y # ys \<Rightarrow> (1, Some (takeWhile graphic (y # ys))))"
    by (simp add: sscanf_def formats isspace_blank del: parse_format.simps)
  have miss: "sscanf (''mkdir '' @ D) ''cat %s'' = (0, None)"
    "sscanf (''mkdir '' @ D) ''stat %s'' = (0, None)"
    "sscanf (''mkdir '' @ D) ''rmdir %s'' = (0, None)"
    "sscanf (''mkdir '' @ D) ''rm %s'' = (0, None)"
    "sscanf (''mkdir '' @ D) ''ls %s'' = (0, None)"
    by (simp_all add: sscanf_def formats del: parse_format.simps)
  have cmp: "strncmp (''mkdir '' @ D) ''ls'' BUFFER_SIZE \<noteq> 0"
    "strncmp (''mkdir '' @ D) ''pwd'' BUFFER_SIZE \<noteq> 0"
    by (simp_all add: strncmp_pos BUFFER_SIZE_def)
  show ?thesis
  proof (cases "dropWhile isspace D")
    case Nil
    then have "sscanf (''mkdir '' @ D) ''mkdir %s'' = (EOF, None)"
      by (simp only: hit list.case)
    then show ?thesis
      using miss cmp Nil
      by (simp add: execute_command_def sscanf_filename_def not_found_def strnlen_def c_str_def NUL_def
          BUFFER_SIZE_def EOF_def del: dropWhile_eq_Nil_conv)
  next
    case (Cons y ys)
    then have "sscanf (''mkdir '' @ D) ''mkdir %s'' = (1, Some (takeWhile graphic (y # ys)))"
      by (simp only: hit list.case)
    then show ?thesis
      using miss Cons
      by (simp add: execute_command_def sscanf_filename_def del: dropWhile_eq_Nil_conv)
  qed
qed

lemma rmdir_line:
  assumes "dropWhile isspace D = x # xs"
  shows "execute_command (''rmdir '' @ D) s =
     do_rmdir (takeWhile graphic (x # xs)) (s\<lparr>filename := takeWhile graphic (x # xs)\<rparr>)"
proof -
  have "sscanf (''rmdir '' @ D) ''rmdir %s'' =
          (case dropWhile isspace D of
             [] \<Rightarrow> (EOF, None)
           | y # ys \<Rightarrow> (1, Some (takeWhile graphic (y # ys))))"
    by (simp add: sscanf_def formats isspace_blank del: parse_format.simps)
  then have hit: "sscanf (''rmdir '' @ D) ''rmdir %s'' = (1, Some (takeWhile graphic (x # xs)))"
    by (simp only: assms list.case)
  have miss: "sscanf (''rmdir '' @ D) ''cat %s'' = (0, None)"
    "sscanf (''rmdir '' @ D) ''stat %s'' = (0, None)"
    "sscanf (''rmdir '' @ D) ''mkdir %s'' = (0, None)"
    by (simp_all add: sscanf_def formats del: parse_format.simps)
  show ?thesis
    using hit miss by (simp add: execute_command_def sscanf_filename_def)
qed

lemma do_mkdir_success:
  assumes "do_mkdir d s = (0, s1)"
  shows "d \<noteq> []" and "map_of (fs s) (resolve (cwd s) d) = None"
    and "map_of (fs s) (parent_dir (resolve (cwd s) d)) \<noteq> None"
    and "s1 = s\<lparr>fs := fs s @ [(resolve (cwd s) d, Dir (fresh_ino (fs s)) 2 4096)],
                trace := trace s @ [Mkdir d]\<rparr>"
proof -
  let ?p = "resolve (cwd s) d"
  let ?s = "s\<lparr>trace := trace s @ [Mkdir d]\<rparr>"
  obtain r s' where sm: "sys_mkdir d 0x1ED s = (r, s')"
    by (cases "sys_mkdir d 0x1ED s")
  then have ok: "\<not> r < 0" and s': "s' = s1"
    using assms by (simp_all add: do_mkdir_def split: if_splits)
  show d: "d \<noteq> []"
  proof
    assume "d = []"
    then have "sys_mkdir d 0x1ED s = failed ENOENT ?s"
      by (simp add: sys_mkdir_def log_call_def)
    with sm ok show False by (simp add: failed_def)
  qed
  show none: "map_of (fs s) ?p = None"
  proof (cases "map_of (fs s) ?p")
    case (Some n)
    then have "sys_mkdir d 0x1ED s = failed EEXIST ?s"
      using d by (simp add: sys_mkdir_def log_call_def)
    with sm ok show ?thesis by (simp add: failed_def)
  qed simp
  show par: "map_of (fs s) (parent_dir ?p) \<noteq> None"
  proof
    assume "map_of (fs s) (parent_dir ?p) = None"
    then have "sys_mkdir d 0x1ED s = failed ENOENT ?s"
      using d none by (simp add: sys_mkdir_def log_call_def)
    with sm ok show False by (simp add: failed_def)
  qed
  then obtain n where n: "map_of (fs s) (parent_dir ?p) = Some n"
    by blast
  show "s1 = s\<lparr>fs := fs s @ [(?p, Dir (fresh_ino (fs s)) 2 4096)], trace := trace s @ [Mkdir d]\<rparr>"
  proof (cases "is_dir n")
    case True
    then have "sys_mkdir d 0x1ED s =
        (0, ?s\<lparr>fs := fs s @ [(?p, Dir (fresh_ino (fs s)) 2 4096)]\<rparr>)"
      using d none n by (simp add: sys_mkdir_def log_call_def)
    with sm s' show ?thesis by auto
  next
    case False
    then have "sys_mkdir d 0x1ED s = failed ENOTDIR ?s"
      using d none n by (simp add: sys_mkdir_def log_call_def)
    with sm ok show ?thesis by (simp add: failed_def)
  qed
qed

lemma map_of_snoc_new: "map_of (tab @ [(q, n)]) q \<noteq> None"
  by (cases "map_of tab q") (simp_all add: map_add_def)

lemma parent_of_root: "parent_dir [slash] = [slash]"
  by (simp add: parent_dir_def)

lemma do_rmdir_new:
  assumes "wf_fs tab" and "map_of tab p = None" and "map_of tab (parent_dir p) \<noteq> None"
    and "fs s = tab @ [(p, Dir i l z)]" and "resolve (cwd s) d = p" and "d \<noteq> []"
  shows "do_rmdir d s = (0, s\<lparr>fs := tab, trace := trace s @ [Rmdir d]\<rparr>)"
proof -
  have notin: "p \<notin> fst ` set tab"
    using assms(2) by (simp add: map_of_eq_None_iff)
  have par: "parent_dir p \<in> fst ` set tab"
    using assms(3) by (simp add: map_of_eq_None_iff)
  have look: "map_of (fs s) p = Some (Dir i l z)"
    using assms(2,4) by (simp add: map_add_def)
  have root: "p \<noteq> [slash]"
  proof
    assume "p = [slash]"
    then have "parent_dir p = p" by (simp add: parent_of_root)
    with par notin show False by simp
  qed
  have "\<not> child_of p k" if "k \<in> fst ` set tab" for k
  proof
    assume "child_of p k"
    then have "parent_dir k = p" by (simp add: child_of_def)
    moreover have "map_of tab (parent_dir k) \<noteq> None"
      using that assms(1) by (auto simp: wf_fs_def list_all_iff split: option.splits)
    then have "parent_dir k \<in> fst ` set tab"
      by (simp add: map_of_eq_None_iff)
    ultimately show False using notin by simp
  qed
  then have "filter (child_of p) (map fst tab) = []"
    by (simp add: filter_empty_conv)
  then have kids: "children (fs s) p = []"
    using assms(4) by (simp add: children_def child_of_def)
  have "filter (\<lambda>e. fst e \<noteq> p) tab = tab"
    using notin by (auto simp: filter_id_conv)
  then have rem: "remove_entry p (fs s) = tab"
    using assms(4) by (simp add: remove_entry_def)
  have "sys_rmdir d s = (0, s\<lparr>fs := tab, trace := trace s @ [Rmdir d]\<rparr>)"
    using look root kids rem assms(5,6)
    by (simp add: sys_rmdir_def namei_def log_call_def is_dir_def)
  then show ?thesis
    by (simp add: do_rmdir_def)
qed

text \<open>
  C6. In a well-formed file system, when the line \<open>mkdir D\<close> succeeds
  (\<open>execute_command\<close> returns 0, so the directory did not exist before and exists
  now), the line \<open>rmdir D\<close> that follows succeeds too and the file system is again
  exactly the list of entries it was before the \<open>mkdir\<close>; the working directory is
  the same throughout.
\<close>

theorem mkdir_then_rmdir_restores:
  assumes "wf_fs (fs s)" and "execute_command (''mkdir '' @ D) s = (0, s1)"
  shows "execute_command (''rmdir '' @ D) s1 =
           (0, s1\<lparr>fs := fs s, trace := trace s1 @ [Rmdir (filename s1)]\<rparr>) \<and>
         cwd s1 = cwd s \<and> map_of (fs s) (resolve (cwd s) (filename s1)) = None \<and>
         map_of (fs s1) (resolve (cwd s) (filename s1)) \<noteq> None"
proof (cases "dropWhile isspace D")
  case Nil
  have "execute_command (''mkdir '' @ D) s =
          (- 1, fprintf_stderr
                  (''myshell: mkdir '' @ D @ '': No such file or directory'' @ [newline]) s)"
    by (simp only: mkdir_line Nil list.case)
  then have "(- 1, fprintf_stderr
                  (''myshell: mkdir '' @ D @ '': No such file or directory'' @ [newline]) s) = (0::int, s1)"
    using assms(2) by (rule trans[OF sym])
  then have "(- 1 :: int) = 0"
    by (simp only: prod.inject)
  then show ?thesis by simp
next
  case (Cons x xs)
  let ?d = "takeWhile graphic (x # xs)"
  let ?p = "resolve (cwd s) ?d"
  have mk: "do_mkdir ?d (s\<lparr>filename := ?d\<rparr>) = (0, s1)"
    using assms(2) by (simp only: mkdir_line Cons list.case)
  have d: "?d \<noteq> []"
    using do_mkdir_success(1)[OF mk] .
  have none: "map_of (fs s) ?p = None"
    using do_mkdir_success(2)[OF mk] by simp
  have par: "map_of (fs s) (parent_dir ?p) \<noteq> None"
    using do_mkdir_success(3)[OF mk] by simp
  have s1: "s1 = s\<lparr>filename := ?d, fs := fs s @ [(?p, Dir (fresh_ino (fs s)) 2 4096)],
                    trace := trace s @ [Mkdir ?d]\<rparr>"
    using do_mkdir_success(4)[OF mk] by simp
  have fn: "filename s1 = ?d" and wd: "cwd s1 = cwd s"
    and tab: "fs s1 = fs s @ [(?p, Dir (fresh_ino (fs s)) 2 4096)]"
    by (simp_all add: s1)
  have keep: "s1\<lparr>filename := ?d\<rparr> = s1"
    by (simp add: s1)
  have res: "resolve (cwd s1) ?d = ?p"
    by (simp only: wd)
  have rm: "do_rmdir ?d s1 = (0, s1\<lparr>fs := fs s, trace := trace s1 @ [Rmdir ?d]\<rparr>)"
    using assms(1) none par tab res d by (rule do_rmdir_new)
  have "execute_command (''rmdir '' @ D) s1 = do_rmdir ?d (s1\<lparr>filename := ?d\<rparr>)"
    using Cons by (rule rmdir_line)
  then have "execute_command (''rmdir '' @ D) s1 =
               (0, s1\<lparr>fs := fs s, trace := trace s1 @ [Rmdir (filename s1)]\<rparr>)"
    by (simp only: keep rm fn)
  moreover have "map_of (fs s) (resolve (cwd s) (filename s1)) = None"
    by (simp only: fn none)
  moreover have "map_of (fs s1) (resolve (cwd s) (filename s1)) \<noteq> None"
    using map_of_snoc_new[of "fs s" ?p] by (simp only: fn tab not_False_eq_True)
  ultimately show ?thesis
    using wd by (intro conjI)
qed

theorem mkdir_then_rmdir_restores_witness:
  "wf_fs (fs example_shell) \<and>
   execute_command ''mkdir d'' example_shell =
     (0, example_shell\<lparr>filename := ''d'',
           fs := fs example_shell @ [(''/home/u/d'', Dir 7 2 4096)], trace := [Mkdir ''d'']\<rparr>) \<and>
   execute_command ''rmdir d''
       (example_shell\<lparr>filename := ''d'',
           fs := fs example_shell @ [(''/home/u/d'', Dir 7 2 4096)], trace := [Mkdir ''d'']\<rparr>) =
     (0, example_shell\<lparr>filename := ''d'', trace := [Mkdir ''d'', Rmdir ''d'']\<rparr>)"
proof -
  let ?made = "example_shell\<lparr>filename := ''d'',
           fs := fs example_shell @ [(''/home/u/d'', Dir 7 2 4096)], trace := [Mkdir ''d'']\<rparr>"
  have wf: "wf_fs (fs example_shell)"
    by (simp add: wf_fs_def example_shell_def parent_dir_def slash_def is_dir_def)
  have mk: "execute_command (''mkdir '' @ ''d'') example_shell = (0, ?made)"
    by (simp add: eval_defs fresh_ino_def example_shell_def)
  show ?thesis
    using mkdir_then_rmdir_restores[OF wf mk] wf mk
    by (simp add: example_shell_def)
qed

subsection \<open>The file system stays well-formed\<close>

lemma map_of_remove_entry: "q \<noteq> p \<Longrightarrow> map_of (remove_entry p tab) q = map_of tab q"
  by (induction tab) (auto simp: remove_entry_def)

lemma keys_remove_entry: "k \<in> fst ` set (remove_entry p tab) \<Longrightarrow> k \<in> fst ` set tab \<and> k \<noteq> p"
  by (auto simp: remove_entry_def)

lemma wf_fs_iff:
  "wf_fs tab \<longleftrightarrow> (\<forall>k\<in>fst ` set tab. \<exists>n. map_of tab (parent_dir k) = Some n \<and> is_dir n)"
  by (auto simp: wf_fs_def list_all_iff split: option.splits)

lemma wf_fs_remove:
  assumes "wf_fs tab" and "\<And>k. k \<in> fst ` set tab \<Longrightarrow> k \<noteq> p \<Longrightarrow> parent_dir k \<noteq> p"
  shows "wf_fs (remove_entry p tab)"
  unfolding wf_fs_iff
proof
  fix k assume "k \<in> fst ` set (remove_entry p tab)"
  then have k: "k \<in> fst ` set tab" "k \<noteq> p"
    using keys_remove_entry by blast+
  then obtain n where "map_of tab (parent_dir k) = Some n" "is_dir n"
    using assms(1) unfolding wf_fs_iff by blast
  moreover have "parent_dir k \<noteq> p"
    using k assms(2) by blast
  ultimately show "\<exists>n. map_of (remove_entry p tab) (parent_dir k) = Some n \<and> is_dir n"
    by (simp add: map_of_remove_entry)
qed

lemma wf_fs_append:
  assumes "wf_fs tab" and "map_of tab (parent_dir p) = Some d" and "is_dir d"
  shows "wf_fs (tab @ [(p, n)])"
  unfolding wf_fs_iff
proof
  fix k assume "k \<in> fst ` set (tab @ [(p, n)])"
  then have "k \<in> fst ` set tab \<or> k = p"
    by auto
  then obtain m where "map_of tab (parent_dir k) = Some m" "is_dir m"
    using assms unfolding wf_fs_iff by blast
  then show "\<exists>n'. map_of (tab @ [(p, n)]) (parent_dir k) = Some n' \<and> is_dir n'"
    by (simp add: map_add_def)
qed

text \<open>The built-ins that change the file system keep it well-formed.\<close>

lemma wf_fs_sys_mkdir:
  assumes "wf_fs (fs s)"
  shows "wf_fs (fs (snd (sys_mkdir d m s)))"
proof (cases "d \<noteq> [] \<and> map_of (fs s) (resolve (cwd s) d) = None")
  case True
  show ?thesis
  proof (cases "map_of (fs s) (parent_dir (resolve (cwd s) d))")
    case None
    with True assms show ?thesis
      by (simp add: sys_mkdir_def failed_def log_call_def Let_def)
  next
    case (Some dn)
    show ?thesis
    proof (cases "is_dir dn")
      case dir: True
      have "wf_fs (fs s @ [(resolve (cwd s) d, Dir (fresh_ino (fs s)) 2 4096)])"
        using assms Some dir by (rule wf_fs_append)
      with True Some dir show ?thesis
        by (simp add: sys_mkdir_def log_call_def Let_def)
    next
      case False
      with True Some assms show ?thesis
        by (simp add: sys_mkdir_def failed_def log_call_def Let_def)
    qed
  qed
next
  case False
  then have "fs (snd (sys_mkdir d m s)) = fs s"
    by (cases "map_of (fs s) (resolve (cwd s) d)")
       (auto simp: sys_mkdir_def failed_def log_call_def Let_def)
  with assms show ?thesis by simp
qed

lemma sys_rmdir_fs:
  "fs (snd (sys_rmdir d s)) = fs s \<or>
   (\<exists>p. children (fs s) p = [] \<and> fs (snd (sys_rmdir d s)) = remove_entry p (fs s))"
proof (cases "namei d (log_call (Rmdir d) s)")
  case (Inl e)
  then have "sys_rmdir d s = failed e (log_call (Rmdir d) s)"
    by (simp add: sys_rmdir_def Let_def)
  then show ?thesis by (simp add: failed_def log_call_def)
next
  case (Inr pn)
  obtain p n where pn: "pn = (p, n)" by (cases pn)
  let ?s = "log_call (Rmdir d) s"
  have fs: "fs ?s = fs s" by (simp add: log_call_def)
  show ?thesis
  proof (cases "is_dir n \<and> p \<noteq> [slash] \<and> children (fs s) p = []")
    case True
    then have "sys_rmdir d s = (0, ?s\<lparr>fs := remove_entry p (fs ?s)\<rparr>)"
      using Inr pn fs by (simp add: sys_rmdir_def Let_def)
    then show ?thesis using True fs by auto
  next
    case False
    then have "\<exists>e. sys_rmdir d s = failed e ?s"
      using Inr pn fs by (auto simp: sys_rmdir_def Let_def)
    then show ?thesis using fs by (auto simp: failed_def)
  qed
qed

lemma sys_unlink_fs:
  "fs (snd (sys_unlink d s)) = fs s \<or>
   (\<exists>p n. map_of (fs s) p = Some n \<and> \<not> is_dir n \<and>
      fs (snd (sys_unlink d s)) = remove_entry p (fs s))"
proof (cases "namei d (log_call (Unlink d) s)")
  case (Inl e)
  then have "sys_unlink d s = failed e (log_call (Unlink d) s)"
    by (simp add: sys_unlink_def Let_def)
  then show ?thesis by (simp add: failed_def log_call_def)
next
  case (Inr pn)
  obtain p n where pn: "pn = (p, n)" by (cases pn)
  let ?s = "log_call (Unlink d) s"
  have fs: "fs ?s = fs s" by (simp add: log_call_def)
  have look: "map_of (fs s) p = Some n"
  proof (cases "map_of (fs ?s) (resolve (cwd ?s) d)")
    case None
    then show ?thesis using Inr pn by (simp add: namei_def split: if_splits)
  next
    case (Some m)
    then show ?thesis using Inr pn fs by (simp add: namei_def split: if_splits)
  qed
  show ?thesis
  proof (cases "is_dir n")
    case True
    then have "sys_unlink d s = failed EISDIR ?s"
      using Inr pn by (simp add: sys_unlink_def Let_def)
    then show ?thesis using fs by (simp add: failed_def)
  next
    case False
    then have "sys_unlink d s = (0, ?s\<lparr>fs := remove_entry p (fs ?s)\<rparr>)"
      using Inr pn by (simp add: sys_unlink_def Let_def)
    then show ?thesis using False look fs by auto
  qed
qed

lemma wf_fs_sys_rmdir:
  assumes "wf_fs (fs s)"
  shows "wf_fs (fs (snd (sys_rmdir d s)))"
proof -
  consider "fs (snd (sys_rmdir d s)) = fs s"
    | p where "children (fs s) p = []" "fs (snd (sys_rmdir d s)) = remove_entry p (fs s)"
    using sys_rmdir_fs[of d s] by blast
  then show ?thesis
  proof cases
    case 1
    with assms show ?thesis by simp
  next
    case 2
    have "parent_dir k \<noteq> p" if "k \<in> fst ` set (fs s)" "k \<noteq> p" for k
    proof
      assume "parent_dir k = p"
      then have "k \<in> set (children (fs s) p)"
        using that by (simp add: children_def child_of_def)
      with 2(1) show False by simp
    qed
    then have "wf_fs (remove_entry p (fs s))"
      using assms by (intro wf_fs_remove)
    with 2(2) show ?thesis by simp
  qed
qed

lemma wf_fs_sys_unlink:
  assumes "wf_fs (fs s)"
  shows "wf_fs (fs (snd (sys_unlink d s)))"
proof (cases "fs (snd (sys_unlink d s)) = fs s")
  case True
  with assms show ?thesis by (simp only:)
next
  case False
  then obtain p n where look: "map_of (fs s) p = Some n" and nodir: "\<not> is_dir n"
    and rem: "fs (snd (sys_unlink d s)) = remove_entry p (fs s)"
    using sys_unlink_fs[of d s] by blast
  have "wf_fs (remove_entry p (fs s))"
  proof (rule wf_fs_remove[OF assms])
    fix k assume k: "k \<in> fst ` set (fs s)"
    obtain m where m: "map_of (fs s) (parent_dir k) = Some m" "is_dir m"
      using k assms unfolding wf_fs_iff by blast
    show "parent_dir k \<noteq> p"
    proof
      assume e: "parent_dir k = p"
      from m(1) have "map_of (fs s) p = Some m"
        by (simp only: e)
      with look have "m = n"
        by simp
      with m(2) nodir show False
        by simp
    qed
  qed
  then show ?thesis by (simp only: rem)
qed

lemma wf_fs_builtins:
  assumes "wf_fs (fs s)"
  shows "wf_fs (fs (snd (do_mkdir d s)))" and "wf_fs (fs (snd (do_rmdir d s)))"
    and "wf_fs (fs (snd (do_rm d s)))"
proof -
  have keep: "fs (fprintf_stderr msg s') = fs s'" for msg s'
    by (simp add: fprintf_stderr_def)
  show "wf_fs (fs (snd (do_mkdir d s)))"
    using wf_fs_sys_mkdir[OF assms, of d "0x1ED"]
    by (cases "sys_mkdir d 0x1ED s") (simp add: do_mkdir_def keep)
  show "wf_fs (fs (snd (do_rmdir d s)))"
    using wf_fs_sys_rmdir[OF assms, of d]
    by (cases "sys_rmdir d s") (simp add: do_rmdir_def keep)
  show "wf_fs (fs (snd (do_rm d s)))"
    using wf_fs_sys_unlink[OF assms, of d]
    by (cases "sys_unlink d s") (simp add: do_rm_def keep)
qed

subsection \<open>The loop of main and the other return values\<close>

text \<open>
  The body of the loop on a line with a visible character dispatches the stripped
  line; on a line of white space only it stops at the read in front of the buffer.
\<close>

lemma main_body_visible:
  assumes "graphic x" and "\<forall>c\<in>set ws. isspace c" and "NUL \<notin> set (xs @ [x])"
    and "length (xs @ x # ws) < BUFFER_SIZE"
  shows "main_body (xs @ x # ws) s = main_dispatch (xs @ [x]) s"
  using strip_trailing[OF assms] by (simp add: main_body_def)

lemma main_body_blank:
  assumes "\<forall>c\<in>set line. isspace c" and "length line < BUFFER_SIZE"
  shows "main_body line s = Inl (OutOfBounds (- 1))"
  using strip_all_space[OF assms] by (simp add: main_body_def)

lemma sys_results:
  "fst (sys_chdir p s) = 0 \<or> fst (sys_chdir p s) = - 1"
  "fst (sys_mkdir p m s) = 0 \<or> fst (sys_mkdir p m s) = - 1"
  "fst (sys_rmdir p s) = 0 \<or> fst (sys_rmdir p s) = - 1"
  "fst (sys_unlink p s) = 0 \<or> fst (sys_unlink p s) = - 1"
  by (simp_all add: sys_chdir_def sys_mkdir_def sys_rmdir_def sys_unlink_def failed_def Let_def
      split: sum.splits prod.splits option.splits)

lemma other_builtins_return_the_result:
  "fst (do_mkdir d s) = fst (sys_mkdir d 0x1ED s)"
  "fst (do_rmdir d s) = fst (sys_rmdir d s)"
  "fst (do_rm d s) = fst (sys_unlink d s)"
  "fst (do_ls d s) = (case fst (sys_opendir d s) of None \<Rightarrow> - 1 | Some dir \<Rightarrow> 0)"
  "fst (do_stat d s) = (case fst (sys_stat d s) of None \<Rightarrow> - 1 | Some st \<Rightarrow> 0)"
  using sys_results(2)[of d "0x1ED" s] sys_results(3)[of d s] sys_results(4)[of d s]
  by (auto simp: do_mkdir_def do_rmdir_def do_rm_def do_ls_def do_stat_def case_prod_unfold
      split: option.splits)

lemma read_line_pos:
  "0 < k \<Longrightarrow> read_line k [] = ([], [])"
  "0 < k \<Longrightarrow> read_line k (c # cs) =
     (if c = newline then ([c], cs) else (case read_line (k - 1) cs of (l, r) \<Rightarrow> (c # l, r)))"
  by (cases k; simp)+

text \<open>Two iterations of the loop of \<open>main\<close> on the input \<open>pwd\<close>, \<open>exit\<close>.\<close>

lemma main_runs_to_exit:
  "main (Suc (Suc 0)) (example_shell\<lparr>stdin := ''pwd'' @ [newline] @ ''exit'' @ [newline]\<rparr>) =
     Inr (Some 0, example_shell\<lparr>filename := [],
            stdout := ''myshell:'' @ [CHR 0x1B] @ ''[32;1m/home/u'' @ [CHR 0x1B] @ ''[0m> '' @
                      ''/home/u'' @ [newline] @
                      ''myshell:'' @ [CHR 0x1B] @ ''[32;1m/home/u'' @ [CHR 0x1B] @ ''[0m> '',
            trace := [Getcwd, Getcwd, Getcwd]\<rparr>)"
  by (simp add: main_iteration_def main_body_def display_prompt_def fgets_def read_line_pos
      strip_trailing_whitespace_def strip_loop.simps c_str_def NUL_def EXIT_SUCCESS_def
      eval_defs example_shell_def)

text \<open>
  A line that holds a NUL byte is a C string that ends there: the white space in
  front of the NUL is stripped, what follows it is not looked at.
\<close>

lemma strip_line_with_NUL:
  "strip_trailing_whitespace (''pwd '' @ [NUL] @ ''x'' @ [newline]) = Inr ''pwd''"
  by (simp add: strip_trailing_whitespace_def strnlen_def c_str_def NUL_def BUFFER_SIZE_def
      isspace_def newline_def strip_loop.simps)


subsection \<open>What the test of a keyword with an argument accepts\<close>

lemma parse_keyword_format:
  assumes "\<forall>c\<in>set kw. graphic c \<and> c \<noteq> CHR ''%''"
  shows "parse_format (kw @ '' %s'') = map Lit kw @ [Space, Conv_s]"
  using assms
proof (induction kw)
  case Nil
  show ?case by (simp add: isspace_def)
next
  case (Cons c kw)
  obtain d cs where rest: "kw @ '' %s'' = d # cs"
    by (cases "kw @ '' %s''") auto
  have "parse_format (c # d # cs) = Lit c # parse_format (d # cs)"
    using Cons.prems by (simp add: graphic_def)
  then show ?case
    using Cons rest by simp
qed

lemma scan_literals:
  "scan (map Lit kw @ ds) (kw @ rest) = scan ds rest"
  by (induction kw) simp_all

lemma scan_literals_miss:
  "fst (scan (map Lit kw @ ds) inp) = 1 \<Longrightarrow> take (length kw) inp = kw"
proof (induction kw arbitrary: inp)
  case Nil
  show ?case by simp
next
  case (Cons c kw)
  then show ?case
    by (cases inp) (auto simp: EOF_def split: if_splits)
qed

lemma scan_argument:
  "fst (scan [Space, Conv_s] rest) = 1 \<longleftrightarrow> (\<exists>c\<in>set rest. graphic c)"
proof -
  have e: "scan [Space, Conv_s] rest =
      (case dropWhile isspace rest of
         [] \<Rightarrow> (EOF, None)
       | x # xs \<Rightarrow> (1, Some (takeWhile graphic (x # xs))))"
    by simp
  have "fst (scan [Space, Conv_s] rest) = 1 \<longleftrightarrow> dropWhile isspace rest \<noteq> []"
    unfolding e by (cases "dropWhile isspace rest") (simp_all only: list.case fst_conv EOF_def, simp_all)
  also have "\<dots> \<longleftrightarrow> (\<exists>c\<in>set rest. graphic c)"
    by (simp add: graphic_def)
  finally show ?thesis .
qed

text \<open>
  What the test with \<open>sscanf\<close> accepts: the buffer starts with the keyword, and a
  visible character follows somewhere behind it. Nothing has to separate the two.
\<close>

lemma keyword_with_argument_iff:
  assumes "\<forall>c\<in>set kw. graphic c \<and> c \<noteq> CHR ''%''"
  shows "keyword_with_argument kw buffer \<longleftrightarrow>
           (\<exists>rest. buffer = kw @ rest \<and> (\<exists>c\<in>set rest. graphic c))"
proof
  assume "keyword_with_argument kw buffer"
  then have one: "fst (scan (map Lit kw @ [Space, Conv_s]) buffer) = 1"
    using assms by (simp add: keyword_with_argument_def sscanf_def parse_keyword_format)
  then have "take (length kw) buffer = kw"
    by (rule scan_literals_miss)
  then have b: "buffer = kw @ drop (length kw) buffer"
    by (metis append_take_drop_id)
  then have "fst (scan [Space, Conv_s] (drop (length kw) buffer)) = 1"
    using one scan_literals[of kw "[Space, Conv_s]" "drop (length kw) buffer"] by simp
  then have "\<exists>c\<in>set (drop (length kw) buffer). graphic c"
    by (simp only: scan_argument)
  with b show "\<exists>rest. buffer = kw @ rest \<and> (\<exists>c\<in>set rest. graphic c)"
    by blast
next
  assume "\<exists>rest. buffer = kw @ rest \<and> (\<exists>c\<in>set rest. graphic c)"
  then obtain rest where "buffer = kw @ rest" "\<exists>c\<in>set rest. graphic c"
    by blast
  then show "keyword_with_argument kw buffer"
    using assms scan_argument[of rest]
    by (simp add: keyword_with_argument_def sscanf_def parse_keyword_format scan_literals)
qed

end
